theory Spec2Isabelle
  imports Complex_Main
begin

section \<open>Text preprocessing (text_preprocessing.py)\<close>

subsection \<open>Characters and the two regular expressions\<close>

text \<open>
  A Python string is modelled as a \<^typ>\<open>string\<close> of ASCII characters. The character
  classes are those of Python's \<^verbatim>\<open>re\<close> module on ASCII input: \<^verbatim>\<open>\w\<close> is a letter, a digit
  or the underscore, \<^verbatim>\<open>\s\<close> is one of the whitespace characters, and \<^verbatim>\<open>.\<close> is any
  character except the newline.
\<close>

definition ascii_uppercase :: string where
  "ascii_uppercase = ''ABCDEFGHIJKLMNOPQRSTUVWXYZ''"

definition ascii_lowercase :: string where
  "ascii_lowercase = ''abcdefghijklmnopqrstuvwxyz''"

definition digits :: string where
  "digits = ''0123456789''"

definition is_upper :: "char \<Rightarrow> bool" where
  "is_upper c = (c \<in> set ascii_uppercase)"

definition is_alnum :: "char \<Rightarrow> bool" where
  "is_alnum c = (c \<in> set ascii_uppercase \<or> c \<in> set ascii_lowercase \<or> c \<in> set digits)"

definition is_word :: "char \<Rightarrow> bool" where
  \<comment> \<open>\<^verbatim>\<open>\w\<close>\<close>
  "is_word c = (is_alnum c \<or> c = CHR ''_'')"

definition is_space :: "char \<Rightarrow> bool" where
  \<comment> \<open>\<^verbatim>\<open>\s\<close>: tab, line feed, vertical tab, form feed, carriage return,
      the four separators 0x1C..0x1F and the space\<close>
  "is_space c = (c \<in> set [CHR 0x09, CHR 0x0A, CHR 0x0B, CHR 0x0C, CHR 0x0D,
                            CHR 0x1C, CHR 0x1D, CHR 0x1E, CHR 0x1F, CHR '' ''])"

definition lower_char :: "char \<Rightarrow> char" where
  "lower_char c = (case map_of (zip ascii_uppercase ascii_lowercase) c of
                     Some l \<Rightarrow> l | None \<Rightarrow> c)"

definition lower :: "string \<Rightarrow> string" where
  \<comment> \<open>\<^verbatim>\<open>str.lower()\<close>\<close>
  "lower s = map lower_char s"

text \<open>
  \<^verbatim>\<open>re.sub(r'\[.*?\]', '', s)\<close>. At an opening bracket the non-greedy \<^verbatim>\<open>.*?\<close> runs to the
  first closing bracket; it cannot cross a newline. \<open>find_close\<close> returns what follows
  that closing bracket, or \<open>None\<close> when the pattern does not match at this position, in
  which case the opening bracket is kept and the scan moves one character on.
\<close>

fun find_close :: "string \<Rightarrow> string option" where
  "find_close [] = None"
| "find_close (c # cs) =
     (if c = CHR '']'' then Some cs
      else if c = CHR 0x0A then None
      else find_close cs)"

lemma find_close_length: "find_close cs = Some r \<Longrightarrow> length r < length cs"
  by (induction cs) (auto split: if_splits)

function strip_brackets :: "string \<Rightarrow> string" where
  "strip_brackets [] = []"
| "strip_brackets (c # cs) =
     (if c = CHR ''[''
      then (case find_close cs of
              Some r \<Rightarrow> strip_brackets r
            | None \<Rightarrow> c # strip_brackets cs)
      else c # strip_brackets cs)"
  by pat_completeness auto
termination
  by (relation "measure length") (auto dest: find_close_length)

definition strip_punct :: "string \<Rightarrow> string" where
  \<comment> \<open>\<^verbatim>\<open>re.sub(r'[^\w\s]', '', s)\<close>\<close>
  "strip_punct s = filter (\<lambda>c. is_word c \<or> is_space c) s"

subsection \<open>The pipeline\<close>

text \<open>
  A pandas Series of strings is a list of strings; the \<^verbatim>\<open>.str\<close> methods work element by
  element. \<open>remove_lower\<close> binds \<open>output\<close> three times as the source does: the second
  binding starts again from \<open>series\<close>, not from the lower-cased \<open>output\<close>.
\<close>

definition remove_lower :: "string list \<Rightarrow> string list" where
  "remove_lower series =
     (let output = map lower series;
          output = map strip_brackets series;
          output = map strip_punct output
      in output)"

text \<open>
  The spaCy pipeline \<^verbatim>\<open>nlp\<close> is loaded from outside the repository. It is a parameter:
  the tokens of a text, and for each token whether it is a stop word and what its
  lemma is.
\<close>

record 'tok nlp =
  tokens :: "string \<Rightarrow> 'tok list"
  is_stop :: "'tok \<Rightarrow> bool"
  lemma_of :: "'tok \<Rightarrow> string"

fun join :: "string \<Rightarrow> string list \<Rightarrow> string" where
  \<comment> \<open>\<^verbatim>\<open>sep.join(xs)\<close>\<close>
  "join sep [] = []"
| "join sep [x] = x"
| "join sep (x # y # ys) = x @ sep @ join sep (y # ys)"

definition token_lemma_nonstop :: "'tok nlp \<Rightarrow> string \<Rightarrow> string" where
  "token_lemma_nonstop nlp text =
     (let doc = tokens nlp text;
          output = map (lemma_of nlp) (filter (\<lambda>token. \<not> is_stop nlp token) doc)
      in join '' '' output)"

definition clean_normalize :: "'tok nlp \<Rightarrow> string list \<Rightarrow> string list" where
  "clean_normalize nlp series =
     (let output = remove_lower series;
          output = map (token_lemma_nonstop nlp) output
      in output)"

section \<open>Survey aggregation (process_survey.py)\<close>

subsection \<open>Strings, files and tables\<close>

definition endswith :: "string \<Rightarrow> string \<Rightarrow> bool" where
  \<comment> \<open>\<^verbatim>\<open>s.endswith(suffix)\<close>\<close>
  "endswith s suffix =
     (length suffix \<le> length s \<and> drop (length s - length suffix) s = suffix)"

text \<open>
  \<^verbatim>\<open>s.replace(old, new)\<close> replaces every occurrence of \<open>old\<close>, scanning from the left
  and resuming after each replaced occurrence.
\<close>

function replace :: "string \<Rightarrow> string \<Rightarrow> string \<Rightarrow> string" where
  "replace [] old new = (if old = [] then new else [])"
| "replace (c # cs) old new =
     (if old = [] then new @ c # replace cs old new
      else if take (length old) (c # cs) = old
           then new @ replace (drop (length old) (c # cs)) old new
      else c # replace cs old new)"
  by pat_completeness auto
termination
  by (relation "measure (\<lambda>(s, old, new). length s)") auto

text \<open>
  A cell of a column read by \<^verbatim>\<open>pd.read_csv\<close> is a number, the missing value NaN, or
  text. Numbers are real numbers: rounding of floating-point arithmetic is not
  modelled. A column holding text has dtype \<^verbatim>\<open>object\<close>.
\<close>

datatype cell = Num real | NaN | Str string

datatype py_error = IndexError | KeyError | TypeError | ReadError

type_synonym series = "cell list"

type_synonym dataframe = "(string \<times> series) list"

definition columns :: "dataframe \<Rightarrow> string list" where
  "columns df = map fst df"

definition getitem :: "dataframe \<Rightarrow> string \<Rightarrow> py_error + series" where
  \<comment> \<open>\<^verbatim>\<open>df[name]\<close>\<close>
  "getitem df name = (case map_of df name of None \<Rightarrow> Inl KeyError | Some s \<Rightarrow> Inr s)"

definition len :: "dataframe \<Rightarrow> nat" where
  \<comment> \<open>\<^verbatim>\<open>len(df)\<close>: the number of rows\<close>
  "len df = (case df of [] \<Rightarrow> 0 | (name, s) # rest \<Rightarrow> length s)"

definition iloc :: "series \<Rightarrow> nat \<Rightarrow> nat \<Rightarrow> series" where
  \<comment> \<open>\<^verbatim>\<open>s.iloc[start:stop]\<close> with literal bounds: a positional slice, cut off at the
      end of the series\<close>
  "iloc s start stop = take (stop - start) (drop start s)"

fun is_Str :: "cell \<Rightarrow> bool" where
  "is_Str (Str t) = True"
| "is_Str c = False"

fun numbers :: "series \<Rightarrow> real list" where
  "numbers [] = []"
| "numbers (Num r # cs) = r # numbers cs"
| "numbers (c # cs) = numbers cs"

definition nanmean :: "series \<Rightarrow> cell" where
  \<comment> \<open>the mean of a numeric series with \<^verbatim>\<open>skipna=True\<close>: missing values are left out, and
      the mean of nothing is NaN\<close>
  "nanmean s =
     (if numbers s = [] then NaN
      else Num (sum_list (numbers s) / real (length (numbers s))))"

definition mean :: "series \<Rightarrow> py_error + cell" where
  \<comment> \<open>\<^verbatim>\<open>s.mean()\<close>: text cannot be averaged (pandas 2 raises \<^verbatim>\<open>TypeError\<close>)\<close>
  "mean s = (if list_ex is_Str s then Inl TypeError else Inr (nanmean s))"

subsection \<open>process_teacher_csvs\<close>

record data =
  Name :: "string list"
  Instructor_Skill :: "cell list"
  Interaction :: "cell list"
  Student_Motivation :: "cell list"
  Course_Organization :: "cell list"

datatype event =
    Found nat
  | Warning_no_AVG string
  | Processed string cell cell cell cell
  | Not_enough_rows string nat
  | Successfully_processed nat

text \<open>
  A folder is its listing in \<^verbatim>\<open>os.listdir\<close> order: each file name with what
  \<^verbatim>\<open>pd.read_csv\<close> does on that file, raise or return a table.
\<close>

type_synonym folder = "(string \<times> (py_error + dataframe)) list"

text \<open>The body of the \<^verbatim>\<open>try\<close> block up to the last mean.\<close>

definition band_means :: "dataframe \<Rightarrow> py_error + (cell \<times> cell \<times> cell \<times> cell)" where
  "band_means df =
     (case getitem df ''AVG'' of Inl e \<Rightarrow> Inl e | Inr avg \<Rightarrow>
      (case mean (iloc avg 0 5) of Inl e \<Rightarrow> Inl e | Inr instructor_skill \<Rightarrow>
      (case mean (iloc avg 5 11) of Inl e \<Rightarrow> Inl e | Inr interaction \<Rightarrow>
      (case mean (iloc avg 11 15) of Inl e \<Rightarrow> Inl e | Inr student_motivation \<Rightarrow>
      (case mean (iloc avg 15 21) of Inl e \<Rightarrow> Inl e | Inr course_organization \<Rightarrow>
         Inr (instructor_skill, interaction, student_motivation, course_organization))))))"

definition append_row :: "data \<Rightarrow> string \<Rightarrow> cell \<times> cell \<times> cell \<times> cell \<Rightarrow> data" where
  "append_row d teacher_name m =
     (case m of (instructor_skill, interaction, student_motivation, course_organization) \<Rightarrow>
        \<lparr>Name = Name d @ [teacher_name],
         Instructor_Skill = Instructor_Skill d @ [instructor_skill],
         Interaction = Interaction d @ [interaction],
         Student_Motivation = Student_Motivation d @ [student_motivation],
         Course_Organization = Course_Organization d @ [course_organization]\<rparr>)"

definition processed :: "string \<Rightarrow> cell \<times> cell \<times> cell \<times> cell \<Rightarrow> event" where
  "processed teacher_name m = (case m of (a, b, c, d) \<Rightarrow> Processed teacher_name a b c d)"

text \<open>
  The \<^verbatim>\<open>for\<close> loop over the files, on the state \<open>(data, printed)\<close>. An exception that
  no handler catches ends the run: the result is \<open>Inl\<close> of it.
\<close>

fun process_files :: "folder \<Rightarrow> data \<times> event list \<Rightarrow> py_error + data \<times> event list" where
  "process_files [] st = Inr st"
| "process_files ((csv_file, read_csv) # rest) (d, printed) =
     (let teacher_name = replace csv_file ''.csv'' '''' in
      case read_csv of
        Inl e \<Rightarrow> Inl e
      | Inr df \<Rightarrow>
          if ''AVG'' \<notin> set (columns df)
          then process_files rest (d, printed @ [Warning_no_AVG csv_file])
          else (case band_means df of
                  Inr m \<Rightarrow>
                    process_files rest
                      (append_row d teacher_name m, printed @ [processed teacher_name m])
                | Inl IndexError \<Rightarrow>
                    process_files rest (d, printed @ [Not_enough_rows csv_file (len df)])
                | Inl e \<Rightarrow> Inl e))"

definition empty_data :: data where
  "empty_data = \<lparr>Name = [], Instructor_Skill = [], Interaction = [],
                  Student_Motivation = [], Course_Organization = []\<rparr>"

definition process_teacher_csvs :: "folder \<Rightarrow> py_error + data \<times> event list" where
  "process_teacher_csvs folder_path =
     (let csv_files = filter (\<lambda>(f, read_csv). endswith f ''.csv'') folder_path in
      case process_files csv_files (empty_data, [Found (length csv_files)]) of
        Inl e \<Rightarrow> Inl e
      | Inr (d, printed) \<Rightarrow>
          Inr (d, printed @ [Successfully_processed (length (Name d))]))"

section \<open>Inputs to run the functions on\<close>

text \<open>
  A small stand-in for the spaCy pipeline: tokens are the whitespace-separated words,
  the stop words are a fixed list, and a token is its own lemma.
\<close>

fun split_words :: "string \<Rightarrow> string \<Rightarrow> string list" where
  "split_words [] w = (if w = [] then [] else [w])"
| "split_words (c # cs) w =
     (if is_space c then (if w = [] then split_words cs [] else w # split_words cs [])
      else split_words cs (w @ [c]))"

definition word_nlp :: "string nlp" where
  "word_nlp = \<lparr>tokens = (\<lambda>text. split_words text []),
               is_stop = (\<lambda>token. token \<in> set [''the'', ''a'', ''is'', ''and'']),
               lemma_of = (\<lambda>token. token)\<rparr>"

definition scores21 :: "real list" where
  "scores21 = [1, 2, 3, 4, 5, 1, 1, 1, 1, 1, 1, 2, 2, 2, 2, 3, 3, 3, 3, 3, 6]"

definition scores20 :: "real list" where
  "scores20 = [1, 2, 3, 4, 5, 1, 1, 1, 1, 1, 1, 2, 2, 2, 2, 3, 3, 3, 3, 6]"

section \<open>Properties of the text preprocessing\<close>

text \<open>
  C3. The output of the normalizer should contain no uppercase letter. \<open>remove_lower\<close>
  computes the lower-cased series and then drops it: on the input
  \<^verbatim>\<open>Great [TA name] TEACHER!!\<close> the cleaned text that is handed to the lemmatizer is
  \<^verbatim>\<open>Great  TEACHER\<close>, with its uppercase letters, and with a lemmatizer that keeps
  the case of a word they reach the output.
\<close>

theorem remove_lower_keeps_uppercase:
  "remove_lower [''Great [TA name] TEACHER!!''] = [''Great  TEACHER'']
   \<and> list_ex is_upper ''Great  TEACHER''
   \<and> clean_normalize word_nlp [''Great [TA name] TEACHER!!''] = [''Great TEACHER'']"
  by code_simp

text \<open>
  C6, as claimed: after the punctuation strip every remaining character is alphanumeric
  or whitespace. The underscore is a word character of the regular expression, so it
  survives, and it is neither alphanumeric nor whitespace.
\<close>

theorem strip_punct_underscore_counterexample:
  "CHR ''_'' \<in> set (strip_punct ''a_b!'')
   \<and> \<not> is_alnum (CHR ''_'') \<and> \<not> is_space (CHR ''_'')"
  by code_simp

text \<open>
  C6, amended: after the punctuation strip every remaining character is alphanumeric,
  the underscore or whitespace, and the characters of these three kinds are all kept,
  in their order.
\<close>

theorem strip_punct_keeps_word_and_space:
  "(\<forall>c \<in> set (strip_punct s). is_alnum c \<or> c = CHR ''_'' \<or> is_space c)
   \<and> filter (\<lambda>c. is_alnum c \<or> c = CHR ''_'' \<or> is_space c) (strip_punct s)
       = filter (\<lambda>c. is_alnum c \<or> c = CHR ''_'' \<or> is_space c) s"
  by (auto simp: strip_punct_def is_word_def intro: filter_cong)

theorem strip_punct_keeps_word_and_space_witness:
  "strip_punct ''a_b! c'' = ''a_b c''
   \<and> CHR ''_'' \<in> set (strip_punct ''a_b! c'')
   \<and> (is_alnum (CHR ''_'') \<or> CHR ''_'' = CHR ''_'' \<or> is_space (CHR ''_''))"
  using strip_punct_keeps_word_and_space [of "''a_b! c''"]
  by (simp add: strip_punct_def is_word_def is_alnum_def is_space_def
      ascii_uppercase_def ascii_lowercase_def digits_def)

text \<open>
  C8. The empty string is normalized to the empty string, given that the tokenizer
  finds no token in the empty text; and a string whose cleaned text has only stop
  words as tokens is normalized to the empty string.
\<close>

theorem clean_normalize_empty:
  "(tokens nlp '''' = [] \<longrightarrow> clean_normalize nlp [''''] = [''''])
   \<and> (remove_lower [s] = [t] \<and> list_all (is_stop nlp) (tokens nlp t)
        \<longrightarrow> clean_normalize nlp [s] = [''''])"
proof -
  have none: "filter (\<lambda>token. \<not> is_stop nlp token) ts = []"
    if "list_all (is_stop nlp) ts" for ts
    using that by (induction ts) auto
  have "remove_lower [''''] = ['''']"
    by (simp add: remove_lower_def strip_punct_def)
  then show ?thesis
    by (auto simp: clean_normalize_def token_lemma_nonstop_def none)
qed

theorem clean_normalize_empty_witness:
  "tokens word_nlp '''' = [] \<and> clean_normalize word_nlp [''''] = ['''']
   \<and> remove_lower [''the [x] a!''] = [''the  a'']
   \<and> list_all (is_stop word_nlp) (tokens word_nlp ''the  a'')
   \<and> clean_normalize word_nlp [''the [x] a!''] = ['''']"
proof -
  have e: "tokens word_nlp '''' = []"
    by (simp add: word_nlp_def)
  have r: "remove_lower [''the [x] a!''] = [''the  a'']"
    by code_simp
  have st: "list_all (is_stop word_nlp) (tokens word_nlp ''the  a'')"
    by code_simp
  from clean_normalize_empty [of word_nlp "''the [x] a!''" "''the  a''"] e r st
  show ?thesis by simp
qed

section \<open>Properties of the survey aggregation\<close>

subsection \<open>Means of numeric bands, and one step of the loop\<close>

lemma numbers_map_Num: "numbers (map Num rs) = rs"
  by (induction rs) auto

lemma no_Str_map_Num: "\<not> list_ex is_Str (map Num rs)"
  by (induction rs) auto

lemma iloc_map_Num: "iloc (map Num rs) start stop = map Num (take (stop - start) (drop start rs))"
  by (simp add: iloc_def take_map drop_map)

lemma mean_map_Num:
  "rs \<noteq> [] \<Longrightarrow> mean (map Num rs) = Inr (Num (sum_list rs / real (length rs)))"
  by (simp add: mean_def nanmean_def numbers_map_Num no_Str_map_Num)

lemma mean_band:
  assumes "stop \<le> length rs" and "start < stop"
  shows "mean (iloc (map Num rs) start stop)
         = Inr (Num (sum_list (take (stop - start) (drop start rs)) / real (stop - start)))"
proof -
  let ?band = "take (stop - start) (drop start rs)"
  have len: "length ?band = stop - start"
    using assms by simp
  with assms have "?band \<noteq> []"
    by auto
  then have "mean (map Num ?band) = Inr (Num (sum_list ?band / real (length ?band)))"
    by (rule mean_map_Num)
  then show ?thesis
    unfolding len iloc_map_Num .
qed

lemma band_means_numeric:
  assumes avg: "getitem df ''AVG'' = Inr (map Num rs)" and n: "21 \<le> length rs"
  shows "band_means df =
           Inr (Num (sum_list (take 5 rs) / 5),
                Num (sum_list (take 6 (drop 5 rs)) / 6),
                Num (sum_list (take 4 (drop 11 rs)) / 4),
                Num (sum_list (take 6 (drop 15 rs)) / 6))"
proof -
  have a: "mean (iloc (map Num rs) 0 5) = Inr (Num (sum_list (take 5 rs) / 5))"
    using mean_band [of 5 rs 0] n by simp
  have b: "mean (iloc (map Num rs) 5 11) = Inr (Num (sum_list (take 6 (drop 5 rs)) / 6))"
    using mean_band [of 11 rs 5] n by simp
  have c: "mean (iloc (map Num rs) 11 15) = Inr (Num (sum_list (take 4 (drop 11 rs)) / 4))"
    using mean_band [of 15 rs 11] n by simp
  have d: "mean (iloc (map Num rs) 15 21) = Inr (Num (sum_list (take 6 (drop 15 rs)) / 6))"
    using mean_band [of 21 rs 15] n by simp
  show ?thesis
    by (simp add: band_means_def avg a b c d)
qed

lemma getitem_columns: "getitem df name = Inr s \<Longrightarrow> name \<in> set (columns df)"
  by (auto simp: getitem_def columns_def split: option.splits dest!: map_of_SomeD intro: rev_image_eqI)

lemma band_means_not_IndexError: "band_means df \<noteq> Inl IndexError"
  by (auto simp: band_means_def mean_def getitem_def split: sum.splits option.splits if_splits)

lemma process_files_step:
  "process_files ((csv_file, Inr df) # rest) (d, printed) =
     (if ''AVG'' \<notin> set (columns df)
      then process_files rest (d, printed @ [Warning_no_AVG csv_file])
      else (case band_means df of
              Inr m \<Rightarrow>
                process_files rest
                  (append_row d (replace csv_file ''.csv'' '''') m,
                   printed @ [processed (replace csv_file ''.csv'' '''') m])
            | Inl e \<Rightarrow> Inl e))"
  using band_means_not_IndexError [of df]
  by (simp add: Let_def split: sum.splits py_error.splits)

lemma process_files_printed:
  "process_files fs (d, printed) = Inr (d', printed') \<Longrightarrow>
   Not_enough_rows f n \<in> set printed' \<Longrightarrow> Not_enough_rows f n \<in> set printed"
proof (induction fs arbitrary: d printed)
  case Nil
  then show ?case by simp
next
  case (Cons entry rest)
  obtain csv_file read_csv where entry: "entry = (csv_file, read_csv)"
    by (cases entry)
  show ?case
  proof (cases read_csv)
    case (Inl e)
    with Cons.prems entry show ?thesis by simp
  next
    case (Inr df)
    with Cons.prems entry show ?thesis
      by (auto simp del: process_files.simps simp add: process_files_step processed_def
          split: if_splits sum.splits prod.splits dest!: Cons.IH)
  qed
qed

lemma process_files_load_failure:
  "(f, Inl e) \<in> set fs \<Longrightarrow> \<exists>e'. process_files fs st = Inl e'"
proof (induction fs arbitrary: st)
  case Nil
  then show ?case by simp
next
  case (Cons entry rest)
  obtain csv_file read_csv where entry: "entry = (csv_file, read_csv)"
    by (cases entry)
  obtain d printed where st: "st = (d, printed)"
    by (cases st)
  show ?case
  proof (cases read_csv)
    case (Inl e0)
    with entry st show ?thesis by simp
  next
    case (Inr df)
    with Cons.prems entry have "(f, Inl e) \<in> set rest"
      by auto
    then have "\<exists>e'. process_files rest st' = Inl e'" for st'
      by (rule Cons.IH)
    with Inr entry st show ?thesis
      by (simp del: process_files.simps add: process_files_step split: sum.splits)
  qed
qed

lemma process_files_append:
  "process_files (fs @ gs) st =
     (case process_files fs st of Inl e \<Rightarrow> Inl e | Inr st' \<Rightarrow> process_files gs st')"
proof (induction fs arbitrary: st)
  case Nil
  then show ?case by simp
next
  case (Cons entry rest)
  obtain csv_file read_csv where entry: "entry = (csv_file, read_csv)"
    by (cases entry)
  obtain d printed where st: "st = (d, printed)"
    by (cases st)
  show ?case
  proof (cases read_csv)
    case (Inl e)
    with entry st show ?thesis by simp
  next
    case (Inr df)
    with entry st show ?thesis
      by (simp del: process_files.simps add: process_files_step Cons.IH split: sum.splits)
  qed
qed

lemma process_files_table:
  "map_sum g fst (process_files fs (d, printed)) = map_sum g fst (process_files fs (d, printed'))"
proof (induction fs arbitrary: d printed printed')
  case Nil
  then show ?case by simp
next
  case (Cons entry rest)
  obtain csv_file read_csv where entry: "entry = (csv_file, read_csv)"
    by (cases entry)
  show ?case
  proof (cases read_csv)
    case (Inl e)
    with entry show ?thesis by simp
  next
    case (Inr df)
    with entry show ?thesis
      by (auto simp del: process_files.simps simp add: process_files_step split: sum.splits intro: Cons.IH)
  qed
qed

lemma process_teacher_csvs_table:
  "map_sum id fst (process_teacher_csvs folder_path) =
   map_sum id fst (process_files (filter (\<lambda>(f, read_csv). endswith f ''.csv'') folder_path)
                     (empty_data, []))"
proof -
  let ?fs = "filter (\<lambda>(f, read_csv). endswith f ''.csv'') folder_path"
  have "map_sum id fst (process_teacher_csvs folder_path)
        = map_sum id fst (process_files ?fs (empty_data, [Found (length ?fs)]))"
    by (simp add: process_teacher_csvs_def Let_def split: sum.splits prod.splits)
  also have "\<dots> = map_sum id fst (process_files ?fs (empty_data, []))"
    by (rule process_files_table)
  finally show ?thesis .
qed

lemma iloc_no_Str: "\<not> list_ex is_Str s \<Longrightarrow> \<not> list_ex is_Str (iloc s start stop)"
  by (auto simp: iloc_def list_ex_iff dest: in_set_takeD in_set_dropD)

lemma bands_cover:
  "iloc s 0 21 = iloc s 0 5 @ iloc s 5 11 @ iloc s 11 15 @ iloc s 15 21"
proof -
  have "take 21 s = take 5 s @ take 6 (drop 5 s) @ take 4 (drop 11 s) @ take 6 (drop 15 s)"
    using take_add [of 5 16 s] take_add [of 6 10 "drop 5 s"] take_add [of 4 6 "drop 11 s"]
    by simp
  then show ?thesis
    by (simp add: iloc_def)
qed

subsection \<open>The claims\<close>

text \<open>
  C1. For a table with an AVG column of at least 21 numeric rows, the record appended
  by the loop has Instructor_Skill the arithmetic mean of rows 0 to 4, Interaction
  that of rows 5 to 10, Student_Motivation that of rows 11 to 14 and
  Course_Organization that of rows 15 to 20; and any other such table that agrees on
  the rows of a band gets the same value for that band, whatever its other rows are.
\<close>

theorem teacher_record_band_means:
  assumes avg: "getitem df ''AVG'' = Inr (map Num rs)" and n: "21 \<le> length rs"
  shows
    "(let teacher_name = replace csv_file ''.csv'' '''';
          instructor_skill = Num (sum_list (take 5 rs) / 5);
          interaction = Num (sum_list (take 6 (drop 5 rs)) / 6);
          student_motivation = Num (sum_list (take 4 (drop 11 rs)) / 4);
          course_organization = Num (sum_list (take 6 (drop 15 rs)) / 6)
      in process_files ((csv_file, Inr df) # rest) (d, printed) =
           process_files rest
             (append_row d teacher_name
                (instructor_skill, interaction, student_motivation, course_organization),
              printed @ [Processed teacher_name
                instructor_skill interaction student_motivation course_organization])
         \<and> (\<forall>df' rs'. getitem df' ''AVG'' = Inr (map Num rs') \<and> 21 \<le> length rs' \<longrightarrow>
               (take 5 rs' = take 5 rs \<longrightarrow>
                  (\<exists>b c e. band_means df' = Inr (instructor_skill, b, c, e)))
             \<and> (take 6 (drop 5 rs') = take 6 (drop 5 rs) \<longrightarrow>
                  (\<exists>a c e. band_means df' = Inr (a, interaction, c, e)))
             \<and> (take 4 (drop 11 rs') = take 4 (drop 11 rs) \<longrightarrow>
                  (\<exists>a b e. band_means df' = Inr (a, b, student_motivation, e)))
             \<and> (take 6 (drop 15 rs') = take 6 (drop 15 rs) \<longrightarrow>
                  (\<exists>a b c. band_means df' = Inr (a, b, c, course_organization)))))"
proof -
  have step: "process_files ((csv_file, Inr df) # rest) (d, printed) =
      process_files rest
        (append_row d (replace csv_file ''.csv'' '''')
           (Num (sum_list (take 5 rs) / 5), Num (sum_list (take 6 (drop 5 rs)) / 6),
            Num (sum_list (take 4 (drop 11 rs)) / 4), Num (sum_list (take 6 (drop 15 rs)) / 6)),
         printed @ [Processed (replace csv_file ''.csv'' '''')
           (Num (sum_list (take 5 rs) / 5)) (Num (sum_list (take 6 (drop 5 rs)) / 6))
           (Num (sum_list (take 4 (drop 11 rs)) / 4)) (Num (sum_list (take 6 (drop 15 rs)) / 6))])"
    using getitem_columns [OF avg] band_means_numeric [OF avg n]
    by (simp add: Let_def processed_def)
  have other: "band_means df' =
           Inr (Num (sum_list (take 5 rs') / 5),
                Num (sum_list (take 6 (drop 5 rs')) / 6),
                Num (sum_list (take 4 (drop 11 rs')) / 4),
                Num (sum_list (take 6 (drop 15 rs')) / 6))"
    if "getitem df' ''AVG'' = Inr (map Num rs')" and "21 \<le> length rs'" for df' rs'
    using that by (rule band_means_numeric)
  from step show ?thesis
    unfolding Let_def by (auto simp: other)
qed

theorem teacher_record_band_means_witness:
  "getitem [(''Question'', replicate 21 (Str ''q'')), (''AVG'', map Num scores21)] ''AVG''
     = Inr (map Num scores21)
   \<and> 21 \<le> length scores21
   \<and> process_files
        [(''smith.csv'', Inr [(''Question'', replicate 21 (Str ''q'')), (''AVG'', map Num scores21)])]
        (empty_data, [])
      = Inr (\<lparr>Name = [''smith''], Instructor_Skill = [Num 3], Interaction = [Num 1],
               Student_Motivation = [Num 2], Course_Organization = [Num (7 / 2)]\<rparr>,
             [Processed ''smith'' (Num 3) (Num 1) (Num 2) (Num (7 / 2))])"
proof -
  have avg: "getitem [(''Question'', replicate 21 (Str ''q'')), (''AVG'', map Num scores21)] ''AVG''
     = Inr (map Num scores21)"
    by (simp add: getitem_def)
  have n: "21 \<le> length scores21"
    by (simp add: scores21_def)
  have name: "replace ''smith.csv'' ''.csv'' '''' = ''smith''"
    by code_simp
  from teacher_record_band_means [OF avg n, of "''smith.csv''" "[]" empty_data "[]"]
  have "process_files
        [(''smith.csv'', Inr [(''Question'', replicate 21 (Str ''q'')), (''AVG'', map Num scores21)])]
        (empty_data, [])
      = Inr (\<lparr>Name = [''smith''], Instructor_Skill = [Num 3], Interaction = [Num 1],
               Student_Motivation = [Num 2], Course_Organization = [Num (7 / 2)]\<rparr>,
             [Processed ''smith'' (Num 3) (Num 1) (Num 2) (Num (7 / 2))])"
    by (simp add: Let_def name append_row_def empty_data_def scores21_def)
  with avg n show ?thesis by simp
qed

text \<open>
  C2. A table of fewer than 21 rows should be left out of the result. The slices are
  cut off at the end of the column instead of raising, so a table of 20 rows is
  processed like any other: its record is appended, with Course_Organization the mean
  of the five rows 15 to 19.
\<close>

theorem twenty_rows_not_rejected:
  "length scores20 = 20
   \<and> process_teacher_csvs [(''smith.csv'', Inr [(''AVG'', map Num scores20)])]
     = Inr (\<lparr>Name = [''smith''], Instructor_Skill = [Num 3], Interaction = [Num 1],
              Student_Motivation = [Num 2], Course_Organization = [Num (18 / 5)]\<rparr>,
            [Found 1, Processed ''smith'' (Num 3) (Num 1) (Num 2) (Num (18 / 5)),
             Successfully_processed 1])"
  by code_simp

text \<open>
  C10. Taking the band means never raises \<^verbatim>\<open>IndexError\<close>, whatever the table is, so the
  handler of the loop is never entered: no run prints its "Not enough rows" message.
\<close>

theorem IndexError_handler_unreachable:
  "band_means df \<noteq> Inl IndexError
   \<and> (\<forall>d printed csv_file n.
         process_teacher_csvs folder_path = Inr (d, printed) \<longrightarrow>
         Not_enough_rows csv_file n \<notin> set printed)"
proof (intro conjI allI impI)
  show "band_means df \<noteq> Inl IndexError"
    by (auto simp: band_means_def mean_def getitem_def
        split: sum.splits option.splits if_splits)
next
  fix d printed csv_file n
  assume run: "process_teacher_csvs folder_path = Inr (d, printed)"
  show "Not_enough_rows csv_file n \<notin> set printed"
  proof
    assume "Not_enough_rows csv_file n \<in> set printed"
    with run show False
      by (auto simp: process_teacher_csvs_def Let_def
          split: sum.splits prod.splits dest: process_files_printed)
  qed
qed

theorem IndexError_handler_unreachable_witness:
  "process_teacher_csvs [(''short.csv'', Inr [(''AVG'', [Num 4, Num 5])])]
     = Inr (\<lparr>Name = [''short''], Instructor_Skill = [Num (9 / 2)], Interaction = [NaN],
              Student_Motivation = [NaN], Course_Organization = [NaN]\<rparr>,
            [Found 1, Processed ''short'' (Num (9 / 2)) NaN NaN NaN, Successfully_processed 1])
   \<and> Not_enough_rows ''short.csv'' 2
       \<notin> set [Found 1, Processed ''short'' (Num (9 / 2)) NaN NaN NaN, Successfully_processed 1]"
proof -
  have run: "process_teacher_csvs [(''short.csv'', Inr [(''AVG'', [Num 4, Num 5])])]
     = Inr (\<lparr>Name = [''short''], Instructor_Skill = [Num (9 / 2)], Interaction = [NaN],
              Student_Motivation = [NaN], Course_Organization = [NaN]\<rparr>,
            [Found 1, Processed ''short'' (Num (9 / 2)) NaN NaN NaN, Successfully_processed 1])"
    by code_simp
  from IndexError_handler_unreachable [of "[(''AVG'', [Num 4, Num 5])]"
      "[(''short.csv'', Inr [(''AVG'', [Num 4, Num 5])])]"] run
  show ?thesis by blast
qed

text \<open>
  C4, as claimed: a file that cannot be read is skipped and the other files still get
  their rows. \<^verbatim>\<open>pd.read_csv\<close> is called outside the \<^verbatim>\<open>try\<close> block, so its exception
  ends the run, and the rows of the files read before it are lost with it.
\<close>

theorem load_failure_counterexample:
  "process_teacher_csvs
     [(''adams.csv'', Inr [(''AVG'', map Num scores21)]),
      (''brown.csv'', Inl ReadError),
      (''clark.csv'', Inr [(''AVG'', map Num scores21)])]
   = Inl ReadError"
  by code_simp

text \<open>
  C4, amended: when the listing holds a file named \<^verbatim>\<open>*.csv\<close> that cannot be read, the
  run ends with an exception and returns no table.
\<close>

theorem load_failure_aborts_run:
  assumes "(csv_file, Inl e) \<in> set folder_path" and "endswith csv_file ''.csv''"
  shows "\<exists>e'. process_teacher_csvs folder_path = Inl e'"
proof -
  from assms
  have "(csv_file, Inl e) \<in> set (filter (\<lambda>(f, read_csv). endswith f ''.csv'') folder_path)"
    by simp
  then obtain e' where
    "process_files (filter (\<lambda>(f, read_csv). endswith f ''.csv'') folder_path)
       (empty_data, [Found (length (filter (\<lambda>(f, read_csv). endswith f ''.csv'') folder_path))])
     = Inl e'"
    using process_files_load_failure by blast
  then show ?thesis
    by (simp add: process_teacher_csvs_def Let_def)
qed

theorem load_failure_aborts_run_witness:
  "(''brown.csv'', Inl ReadError)
     \<in> set [(''adams.csv'', Inr [(''AVG'', map Num scores21)]), (''brown.csv'', Inl ReadError)]
   \<and> endswith ''brown.csv'' ''.csv''
   \<and> (\<exists>e'. process_teacher_csvs
         [(''adams.csv'', Inr [(''AVG'', map Num scores21)]), (''brown.csv'', Inl ReadError)]
        = Inl e')"
proof -
  have m: "(''brown.csv'', Inl ReadError)
     \<in> set [(''adams.csv'', Inr [(''AVG'', map Num scores21)]), (''brown.csv'', Inl ReadError)]"
    by simp
  have s: "endswith ''brown.csv'' ''.csv''"
    by (simp add: endswith_def)
  from load_failure_aborts_run [OF m s] m s show ?thesis
    by blast
qed

text \<open>
  C5. A table without an AVG column adds no row and raises nothing: the loop prints
  its warning and goes on with the remaining files, and the table returned for a
  folder is the one returned for the folder without that file.
\<close>

theorem table_without_AVG_is_skipped:
  assumes "''AVG'' \<notin> set (columns df)"
  shows "process_files ((csv_file, Inr df) # rest) (d, printed)
           = process_files rest (d, printed @ [Warning_no_AVG csv_file])
         \<and> map_sum id fst (process_teacher_csvs (files1 @ (csv_file, Inr df) # files2))
           = map_sum id fst (process_teacher_csvs (files1 @ files2))"
proof
  show step: "process_files ((csv_file, Inr df) # rest) (d, printed)
           = process_files rest (d, printed @ [Warning_no_AVG csv_file])" for rest d printed
    using assms by (simp add: Let_def)
  let ?csv = "filter (\<lambda>(f, read_csv). endswith f ''.csv'')"
  have "map_sum id fst (process_files (?csv files1 @ ?csv ((csv_file, Inr df) # files2)) st)
        = map_sum id fst (process_files (?csv files1 @ ?csv files2) st)" for st
  proof (cases "process_files (?csv files1) st")
    case (Inl e)
    then show ?thesis by (simp add: process_files_append)
  next
    case (Inr st')
    obtain d' printed' where st': "st' = (d', printed')"
      by (cases st')
    show ?thesis
    proof (cases "endswith csv_file ''.csv''")
      case True
      with Inr st' show ?thesis
        using process_files_table [of id "?csv files2" d' "printed' @ [Warning_no_AVG csv_file]" printed']
        by (simp del: process_files.simps add: process_files_append step)
    next
      case False
      then show ?thesis by simp
    qed
  qed
  then show "map_sum id fst (process_teacher_csvs (files1 @ (csv_file, Inr df) # files2))
           = map_sum id fst (process_teacher_csvs (files1 @ files2))"
    by (simp only: process_teacher_csvs_table filter_append)
qed

theorem table_without_AVG_is_skipped_witness:
  "''AVG'' \<notin> set (columns [(''Question'', [Str ''q1'']), (''Score'', [Num 4])])
   \<and> process_teacher_csvs
       [(''adams.csv'', Inr [(''AVG'', map Num scores21)]),
        (''brown.csv'', Inr [(''Question'', [Str ''q1'']), (''Score'', [Num 4])]),
        (''clark.csv'', Inr [(''AVG'', map Num scores21)])]
     = Inr (\<lparr>Name = [''adams'', ''clark''], Instructor_Skill = [Num 3, Num 3],
              Interaction = [Num 1, Num 1], Student_Motivation = [Num 2, Num 2],
              Course_Organization = [Num (7 / 2), Num (7 / 2)]\<rparr>,
            [Found 3, Processed ''adams'' (Num 3) (Num 1) (Num 2) (Num (7 / 2)),
             Warning_no_AVG ''brown.csv'',
             Processed ''clark'' (Num 3) (Num 1) (Num 2) (Num (7 / 2)),
             Successfully_processed 2])
   \<and> map_sum id fst (process_teacher_csvs
       ([(''adams.csv'', Inr [(''AVG'', map Num scores21)])]
        @ (''brown.csv'', Inr [(''Question'', [Str ''q1'']), (''Score'', [Num 4])])
        # [(''clark.csv'', Inr [(''AVG'', map Num scores21)])]))
     = map_sum id fst (process_teacher_csvs
       ([(''adams.csv'', Inr [(''AVG'', map Num scores21)])]
        @ [(''clark.csv'', Inr [(''AVG'', map Num scores21)])]))"
proof -
  have no: "''AVG'' \<notin> set (columns [(''Question'', [Str ''q1'']), (''Score'', [Num 4])])"
    by (simp add: columns_def)
  have run: "process_teacher_csvs
       [(''adams.csv'', Inr [(''AVG'', map Num scores21)]),
        (''brown.csv'', Inr [(''Question'', [Str ''q1'']), (''Score'', [Num 4])]),
        (''clark.csv'', Inr [(''AVG'', map Num scores21)])]
     = Inr (\<lparr>Name = [''adams'', ''clark''], Instructor_Skill = [Num 3, Num 3],
              Interaction = [Num 1, Num 1], Student_Motivation = [Num 2, Num 2],
              Course_Organization = [Num (7 / 2), Num (7 / 2)]\<rparr>,
            [Found 3, Processed ''adams'' (Num 3) (Num 1) (Num 2) (Num (7 / 2)),
             Warning_no_AVG ''brown.csv'',
             Processed ''clark'' (Num 3) (Num 1) (Num 2) (Num (7 / 2)),
             Successfully_processed 2])"
    by code_simp
  from table_without_AVG_is_skipped [OF no, of "''brown.csv''" "[]" empty_data "[]"
      "[(''adams.csv'', Inr [(''AVG'', map Num scores21)])]"
      "[(''clark.csv'', Inr [(''AVG'', map Num scores21)])]"]
  have "map_sum id fst (process_teacher_csvs
       ([(''adams.csv'', Inr [(''AVG'', map Num scores21)])]
        @ (''brown.csv'', Inr [(''Question'', [Str ''q1'']), (''Score'', [Num 4])])
        # [(''clark.csv'', Inr [(''AVG'', map Num scores21)])]))
     = map_sum id fst (process_teacher_csvs
       ([(''adams.csv'', Inr [(''AVG'', map Num scores21)])]
        @ [(''clark.csv'', Inr [(''AVG'', map Num scores21)])]))"
    by (rule conjunct2)
  with no run show ?thesis by (intro conjI)
qed

text \<open>
  C7, as claimed: a table whose AVG column has non-numeric values never makes the
  aggregator fail, and the means of the bands they touch are NaN. A column of text
  makes \<^verbatim>\<open>mean\<close> raise \<^verbatim>\<open>TypeError\<close>, which no handler catches; and a missing value in
  a band is left out of its mean, which is then the mean of the other rows, not NaN.
\<close>

theorem non_numeric_AVG_counterexample:
  "process_teacher_csvs [(''smith.csv'', Inr [(''AVG'', replicate 21 (Str ''good''))])]
     = Inl TypeError
   \<and> process_teacher_csvs [(''jones.csv'', Inr [(''AVG'', NaN # map Num (tl scores21))])]
     = Inr (\<lparr>Name = [''jones''], Instructor_Skill = [Num (7 / 2)], Interaction = [Num 1],
              Student_Motivation = [Num 2], Course_Organization = [Num (7 / 2)]\<rparr>,
            [Found 1, Processed ''jones'' (Num (7 / 2)) (Num 1) (Num 2) (Num (7 / 2)),
             Successfully_processed 1])"
  by code_simp

text \<open>
  C7, amended: when the AVG column holds numbers and missing values only, the
  aggregator does not fail and appends a record, each band mean being taken over the
  numbers of the band; a band mean is NaN exactly when its band holds no number. When
  one of the rows 0 to 20 of the column is text, the run ends with \<^verbatim>\<open>TypeError\<close>.
\<close>

theorem non_numeric_AVG:
  assumes avg: "getitem df ''AVG'' = Inr avg"
  shows
    "(\<not> list_ex is_Str avg \<longrightarrow>
        process_files ((csv_file, Inr df) # rest) (d, printed) =
          process_files rest
            (append_row d (replace csv_file ''.csv'' '''')
               (nanmean (iloc avg 0 5), nanmean (iloc avg 5 11),
                nanmean (iloc avg 11 15), nanmean (iloc avg 15 21)),
             printed @ [Processed (replace csv_file ''.csv'' '''')
               (nanmean (iloc avg 0 5)) (nanmean (iloc avg 5 11))
               (nanmean (iloc avg 11 15)) (nanmean (iloc avg 15 21))]))
     \<and> (list_ex is_Str (iloc avg 0 21) \<longrightarrow>
          process_files ((csv_file, Inr df) # rest) (d, printed) = Inl TypeError)
     \<and> (nanmean (iloc avg start stop) = NaN
          \<longleftrightarrow> numbers (iloc avg start stop) = [])"
proof (intro conjI impI)
  have col: "''AVG'' \<in> set (columns df)"
    using avg by (rule getitem_columns)
  {
    assume "\<not> list_ex is_Str avg"
    then have "mean (iloc avg start stop) = Inr (nanmean (iloc avg start stop))" for start stop
      using iloc_no_Str [of avg start stop] by (simp add: mean_def)
    then have "band_means df = Inr (nanmean (iloc avg 0 5), nanmean (iloc avg 5 11),
                nanmean (iloc avg 11 15), nanmean (iloc avg 15 21))"
      by (simp add: band_means_def avg)
    with col show "process_files ((csv_file, Inr df) # rest) (d, printed) =
          process_files rest
            (append_row d (replace csv_file ''.csv'' '''')
               (nanmean (iloc avg 0 5), nanmean (iloc avg 5 11),
                nanmean (iloc avg 11 15), nanmean (iloc avg 15 21)),
             printed @ [Processed (replace csv_file ''.csv'' '''')
               (nanmean (iloc avg 0 5)) (nanmean (iloc avg 5 11))
               (nanmean (iloc avg 11 15)) (nanmean (iloc avg 15 21))])"
      by (simp del: process_files.simps add: process_files_step processed_def)
  }
  {
    assume "list_ex is_Str (iloc avg 0 21)"
    then have "list_ex is_Str (iloc avg 0 5) \<or> list_ex is_Str (iloc avg 5 11)
               \<or> list_ex is_Str (iloc avg 11 15) \<or> list_ex is_Str (iloc avg 15 21)"
      by (simp only: bands_cover list_ex_append)
    then have "band_means df = Inl TypeError"
      by (auto simp: band_means_def avg mean_def)
    with col show "process_files ((csv_file, Inr df) # rest) (d, printed) = Inl TypeError"
      by (simp del: process_files.simps add: process_files_step)
  }
  show "nanmean (iloc avg start stop) = NaN \<longleftrightarrow> numbers (iloc avg start stop) = []"
    by (simp add: nanmean_def)
qed

theorem non_numeric_AVG_witness:
  "getitem [(''AVG'', replicate 5 NaN @ map Num (drop 5 scores21))] ''AVG''
     = Inr (replicate 5 NaN @ map Num (drop 5 scores21))
   \<and> \<not> list_ex is_Str (replicate 5 NaN @ map Num (drop 5 scores21))
   \<and> process_files
        [(''jones.csv'', Inr [(''AVG'', replicate 5 NaN @ map Num (drop 5 scores21))])]
        (empty_data, [])
      = Inr (\<lparr>Name = [''jones''], Instructor_Skill = [NaN], Interaction = [Num 1],
               Student_Motivation = [Num 2], Course_Organization = [Num (7 / 2)]\<rparr>,
             [Processed ''jones'' NaN (Num 1) (Num 2) (Num (7 / 2))])
   \<and> getitem [(''AVG'', replicate 21 (Str ''good''))] ''AVG'' = Inr (replicate 21 (Str ''good''))
   \<and> list_ex is_Str (iloc (replicate 21 (Str ''good'')) 0 21)
   \<and> process_files [(''smith.csv'', Inr [(''AVG'', replicate 21 (Str ''good''))])] (empty_data, [])
      = Inl TypeError"
proof -
  let ?a = "replicate 5 NaN @ map Num (drop 5 scores21)"
  let ?b = "replicate 21 (Str ''good'')"
  have ga: "getitem [(''AVG'', ?a)] ''AVG'' = Inr ?a"
    by (simp add: getitem_def)
  have gb: "getitem [(''AVG'', ?b)] ''AVG'' = Inr ?b"
    by (simp add: getitem_def)
  have na: "\<not> list_ex is_Str ?a"
    by code_simp
  have sb: "list_ex is_Str (iloc ?b 0 21)"
    by code_simp
  have va: "append_row empty_data (replace ''jones.csv'' ''.csv'' '''')
               (nanmean (iloc ?a 0 5), nanmean (iloc ?a 5 11),
                nanmean (iloc ?a 11 15), nanmean (iloc ?a 15 21))
            = \<lparr>Name = [''jones''], Instructor_Skill = [NaN], Interaction = [Num 1],
               Student_Motivation = [Num 2], Course_Organization = [Num (7 / 2)]\<rparr>"
    by code_simp
  have pa: "Processed (replace ''jones.csv'' ''.csv'' '''')
               (nanmean (iloc ?a 0 5)) (nanmean (iloc ?a 5 11))
               (nanmean (iloc ?a 11 15)) (nanmean (iloc ?a 15 21))
            = Processed ''jones'' NaN (Num 1) (Num 2) (Num (7 / 2))"
    by code_simp
  from non_numeric_AVG [OF ga, of "''jones.csv''" "[]" empty_data "[]"] na
  have ra: "process_files [(''jones.csv'', Inr [(''AVG'', ?a)])] (empty_data, [])
      = Inr (\<lparr>Name = [''jones''], Instructor_Skill = [NaN], Interaction = [Num 1],
               Student_Motivation = [Num 2], Course_Organization = [Num (7 / 2)]\<rparr>,
             [Processed ''jones'' NaN (Num 1) (Num 2) (Num (7 / 2))])"
    by (simp only: va pa process_files.simps append_Nil simp_thms)
  from non_numeric_AVG [OF gb, of "''smith.csv''" "[]" empty_data "[]"] sb
  have rb: "process_files [(''smith.csv'', Inr [(''AVG'', ?b)])] (empty_data, []) = Inl TypeError"
    by blast
  from ga na ra gb sb rb show ?thesis
    by (intro conjI)
qed

text \<open>
  C9. The name should be the file name without its trailing extension.
  \<^verbatim>\<open>csv_file.replace('.csv', '')\<close> removes every occurrence of \<^verbatim>\<open>.csv\<close>, also inside the
  name: the file \<^verbatim>\<open>smith.csv.bak.csv\<close> gets the name \<^verbatim>\<open>smith.bak\<close>, not
  \<^verbatim>\<open>smith.csv.bak\<close>.
\<close>

theorem name_strips_every_csv:
  "replace ''smith.csv.bak.csv'' ''.csv'' '''' = ''smith.bak''
   \<and> process_teacher_csvs [(''smith.csv.bak.csv'', Inr [(''AVG'', map Num scores21)])]
     = Inr (\<lparr>Name = [''smith.bak''], Instructor_Skill = [Num 3], Interaction = [Num 1],
              Student_Motivation = [Num 2], Course_Organization = [Num (7 / 2)]\<rparr>,
            [Found 1, Processed ''smith.bak'' (Num 3) (Num 1) (Num 2) (Num (7 / 2)),
             Successfully_processed 1])"
  by code_simp

end
